theory Spec2Isabelle
  imports Main "HOL-Library.Sublist" "HOL-Library.Word"
begin

section \<open>Python values used by newspaper/utils.py\<close>

text \<open>
  Python text (\<open>str\<close>) is a \<open>string\<close>, one \<open>char\<close> per code point, so the text of the
  model ranges over the code points below 256. Every character the code tests for
  (\<open>#\<close>, \<open>!\<close>, \<open>/\<close>, \<open>-\<close>) is ASCII. Python \<open>bytes\<close> are lists of 8-bit words.
  The two are different types in Python 3 and the library functions the module calls
  tell them apart, so values that may be either are tagged.
\<close>

type_synonym byte = "8 word"

datatype pyval = PyStr string | PyBytes "byte list"

datatype py_error = TypeError | AttributeError | KeyError | IndexError | ValueError

subsection \<open>The string operations of the built-in \<open>str\<close> type\<close>

text \<open>\<open>sub in s\<close>: \<open>sub\<close> occurs in \<open>s\<close> as a contiguous run.\<close>

fun str_contains :: "string \<Rightarrow> string \<Rightarrow> bool" where
  "str_contains sub [] = (sub = [])"
| "str_contains sub (c # cs) = (prefix sub (c # cs) \<or> str_contains sub cs)"

text \<open>
  \<open>s.replace(old, new)\<close>: every occurrence of \<open>old\<close>, found from the left and not
  overlapping, becomes \<open>new\<close>. With an empty \<open>old\<close> Python puts \<open>new\<close> before every
  character and at the end.
\<close>

fun str_replace :: "string \<Rightarrow> string \<Rightarrow> string \<Rightarrow> string" where
  "str_replace [] new s = new @ concat (map (\<lambda>c. c # new) s)"
| "str_replace (d # ds) new [] = []"
| "str_replace (d # ds) new (c # cs) =
     (if prefix (d # ds) (c # cs)
      then new @ str_replace (d # ds) new (drop (length (d # ds)) (c # cs))
      else c # str_replace (d # ds) new cs)"

text \<open>
  \<open>text.encode('utf-8', 'replace')\<close> on code points below 256: one byte below 128, two
  bytes from 128 on. No code point in this range is a surrogate, so the \<open>replace\<close> error
  handler never runs.
\<close>

definition utf8_encode_char :: "char \<Rightarrow> byte list" where
  "utf8_encode_char c =
     (let n = (of_char c :: nat)
      in if n < 128 then [of_nat n]
         else [of_nat (192 + n div 64), of_nat (128 + n mod 64)])"

definition utf8_encode :: "string \<Rightarrow> byte list" where
  "utf8_encode s = concat (map utf8_encode_char s)"

section \<open>Cache file names\<close>

text \<open>
  \<^verbatim>\<open>
  def domain_to_filename(domain):
      """All '/' are turned into '-', no trailing. schema's
      are gone, only the raw domain + ".txt" remains
      """
      filename = domain.replace('/', '-')
      if filename[-1] == '-':
          filename = filename[:-1]
      filename += ".txt"
      return filename
  \<close>
  \<open>filename[-1]\<close> raises \<open>IndexError\<close> on the empty string.
\<close>

definition domain_to_filename :: "string \<Rightarrow> py_error + string" where
  "domain_to_filename domain =
     (let filename = str_replace ''/'' ''-'' domain
      in if filename = [] then Inl IndexError
         else let filename = (if last filename = CHR ''-'' then butlast filename else filename)
              in Inr (filename @ ''.txt''))"

section \<open>Fingerprints\<close>

text \<open>
  \<^verbatim>\<open>
  class ParsingCandidate(object):
      def __init__(self, url, link_hash):
          self.url = url
          self.link_hash = link_hash
  \<close>
\<close>

datatype parsing_candidate = ParsingCandidate (pc_url: string) (link_hash: string)

text \<open>
  \<open>hashlib.md5(data).hexdigest()\<close>. The digest itself is library code and is a
  parameter \<open>md5\<close>, from the bytes to the hexadecimal text. What the module depends on is
  the type check in front of it: \<open>hashlib.md5\<close> accepts bytes and raises \<open>TypeError\<close>
  on text ("Strings must be encoded before hashing").
\<close>

definition hashlib_md5_hexdigest :: "(byte list \<Rightarrow> string) \<Rightarrow> pyval \<Rightarrow> py_error + string" where
  "hashlib_md5_hexdigest md5 data =
     (case data of PyStr s \<Rightarrow> Inl TypeError | PyBytes b \<Rightarrow> Inr (md5 b))"

text \<open>
  \<open>'%s.%s' % (digest, time.time())\<close>: the digest, a dot, and \<open>str\<close> of the clock
  reading. The clock reading \<open>now\<close> is an input of the model and its rendering
  \<open>str_time\<close> (Python's \<open>str\<close> on a float) is a parameter.
\<close>

definition format_link_hash :: "('t \<Rightarrow> string) \<Rightarrow> string \<Rightarrow> 't \<Rightarrow> string" where
  "format_link_hash str_time digest now = digest @ ''.'' @ str_time now"

text \<open>
  \<^verbatim>\<open>
  class RawHelper(object):
      @staticmethod
      def get_parsing_candidate(url, raw_html):
          if isinstance(raw_html, str):
              raw_html = raw_html.encode('utf-8', 'replace')
          link_hash = '%s.%s' % (hashlib.md5(raw_html).hexdigest(), time.time())
          return ParsingCandidate(url, link_hash)
  \<close>
\<close>

definition RawHelper_get_parsing_candidate ::
  "(byte list \<Rightarrow> string) \<Rightarrow> ('t \<Rightarrow> string) \<Rightarrow> 't \<Rightarrow> string \<Rightarrow> pyval \<Rightarrow> py_error + parsing_candidate" where
  "RawHelper_get_parsing_candidate md5 str_time now url raw_html =
     (let raw_html = (case raw_html of PyStr s \<Rightarrow> PyBytes (utf8_encode s) | PyBytes b \<Rightarrow> PyBytes b)
      in case hashlib_md5_hexdigest md5 raw_html of
           Inl e \<Rightarrow> Inl e
         | Inr digest \<Rightarrow> Inr (ParsingCandidate url (format_link_hash str_time digest now)))"

text \<open>
  \<^verbatim>\<open>
  class URLHelper(object):
      @staticmethod
      def get_parsing_candidate(url_to_crawl):
          # Replace shebang in urls
          final_url = url_to_crawl.replace('#!', '?_escaped_fragment_=') \
              if '#!' in url_to_crawl else url_to_crawl
          link_hash = '%s.%s' % (hashlib.md5(final_url).hexdigest(), time.time())
          return ParsingCandidate(final_url, link_hash)
  \<close>
  The condition \<open>'#!' in url_to_crawl\<close> is evaluated first; with a text pattern and a
  bytes argument it raises \<open>TypeError\<close>. The text case passes \<open>final_url\<close>, still
  text, to \<open>hashlib.md5\<close>.
\<close>

definition final_url :: "string \<Rightarrow> string" where
  "final_url url_to_crawl =
     (if str_contains ''#!'' url_to_crawl
      then str_replace ''#!'' ''?_escaped_fragment_='' url_to_crawl
      else url_to_crawl)"

definition URLHelper_get_parsing_candidate ::
  "(byte list \<Rightarrow> string) \<Rightarrow> ('t \<Rightarrow> string) \<Rightarrow> 't \<Rightarrow> pyval \<Rightarrow> py_error + parsing_candidate" where
  "URLHelper_get_parsing_candidate md5 str_time now url_to_crawl =
     (case url_to_crawl of
        PyBytes b \<Rightarrow> Inl TypeError
      | PyStr s \<Rightarrow>
          (case hashlib_md5_hexdigest md5 (PyStr (final_url s)) of
             Inl e \<Rightarrow> Inl e
           | Inr digest \<Rightarrow>
               Inr (ParsingCandidate (final_url s) (format_link_hash str_time digest now))))"

section \<open>The timeout guard\<close>

text \<open>
  Exceptions are objects: a class and the tuple \<open>args\<close> the constructor was given. An
  argument is text or another exception. Of a class the guard uses one fact only: whether
  calling it with a single positional argument builds an instance (\<open>ValueError(x)\<close>
  does; \<open>UnicodeDecodeError(x)\<close> raises \<open>TypeError\<close>, it wants five arguments).
\<close>

datatype exc_class = ExcClass (class_name: string) (accepts_one_arg: bool)

datatype pyexc = PyExc (class_of: exc_class) (args: "pyarg list")
  and pyarg = ArgStr string | ArgExc pyexc

text \<open>\<^verbatim>\<open>class TimeoutError(Exception): pass\<close>\<close>

definition TimeoutError_class :: exc_class where
  "TimeoutError_class = ExcClass ''TimeoutError'' True"

definition TypeError_class :: exc_class where
  "TypeError_class = ExcClass ''TypeError'' True"

text \<open>
  \<open>cls(arg)\<close>. The message of the \<open>TypeError\<close> of a constructor that rejects the call is
  not modelled.
\<close>

definition instantiate :: "exc_class \<Rightarrow> pyarg \<Rightarrow> pyexc + pyexc" where
  "instantiate cls arg =
     (if accepts_one_arg cls then Inr (PyExc cls [arg]) else Inl (PyExc TypeError_class []))"

text \<open>
  \<^verbatim>\<open>
  class Dispatch(threading.Thread):
      def __init__(self):
          threading.Thread.__init__(self)
          self.result = None
          self.error = None
          self.setDaemon(True)
          self.start()

      def run(self):
          try:
              self.result = function(*args, **kw)
          except:
              self.error = sys.exc_info()
  \<close>
  \<open>result\<close> is \<open>None\<close> for Python's \<open>None\<close>. \<open>error\<close> holds the class and the
  instance of \<open>sys.exc_info()\<close> (the traceback is left out). The call
  \<open>function(*args, **kw)\<close> is its outcome: the exception it raises or the value it returns.
\<close>

record 'a Dispatch =
  result :: "'a option"
  error :: "(exc_class \<times> pyexc) option"

definition Dispatch_init :: "'a Dispatch" where
  "Dispatch_init = \<lparr>result = None, error = None\<rparr>"

definition Dispatch_run :: "(pyexc + 'a) \<Rightarrow> 'a Dispatch \<Rightarrow> 'a Dispatch" where
  "Dispatch_run function self =
     (case function of
        Inr v \<Rightarrow> self\<lparr>result := Some v\<rparr>
      | Inl e \<Rightarrow> self\<lparr>error := Some (class_of e, e)\<rparr>)"

text \<open>
  \<^verbatim>\<open>
  c = Dispatch()
  c.join(timeout)
  if c.isAlive():
      raise TimeoutError()
  if c.error:
      raise c.error[0](c.error[1])
  return c.result
  \<close>
  What the caller does after \<open>c.join(timeout)\<close> has returned. \<open>isAlive\<close> is the answer
  of \<open>c.isAlive()\<close> (a method of \<open>threading.Thread\<close> up to Python 3.8): the worker is
  still running, so \<open>run\<close> has not stored anything yet; otherwise \<open>run\<close> is over. The
  clock and the scheduler that decide \<open>isAlive\<close> are outside the model.
\<close>

definition timelimit :: "bool \<Rightarrow> (pyexc + 'a) \<Rightarrow> pyexc + 'a option" where
  "timelimit isAlive function =
     (let c = (if isAlive then Dispatch_init else Dispatch_run function Dispatch_init)
      in if isAlive then Inl (PyExc TimeoutError_class [])
         else case error c of
                Some (cls, val) \<Rightarrow>
                  (case instantiate cls (ArgExc val) of Inl e \<Rightarrow> Inl e | Inr e \<Rightarrow> Inl e)
              | None \<Rightarrow> Inr (result c))"

section \<open>Splitting URLs\<close>

text \<open>
  The deduplicator calls \<open>urllib.parse.urlparse\<close> and reads \<open>netloc\<close> and \<open>path\<close> of
  the result. The library is a parameter of the deduplicator below; \<open>urlparse_lib\<close> is
  an instance to run it with, the algorithm of \<open>urlsplit\<close> and \<open>urlparse\<close> for these
  two fields: a scheme is what precedes the first
  \<open>:\<close> when it starts with an ASCII letter and consists of scheme characters; after a
  leading \<open>//\<close> the netloc runs to the first of \<open>/\<close>, \<open>?\<close>, \<open>#\<close> and one unmatched
  square bracket in it is a \<open>ValueError\<close>; the fragment starts at the first \<open>#\<close> of what
  is left, the query at the first \<open>?\<close> before it; for the schemes of \<open>uses_params\<close> the
  parameters of the last path segment, from its first \<open>;\<close>, are split off the path.
  The clean-up of the URL that later library versions put in front (dropping leading
  blanks and control characters, removing tabs and line breaks) is not part of it.
\<close>

record parse_result =
  netloc :: string
  path :: string

definition ascii_lowercase :: string where
  "ascii_lowercase = ''abcdefghijklmnopqrstuvwxyz''"

definition ascii_uppercase :: string where
  "ascii_uppercase = ''ABCDEFGHIJKLMNOPQRSTUVWXYZ''"

definition scheme_chars :: string where
  "scheme_chars = ascii_lowercase @ ascii_uppercase @ ''0123456789+-.''"

definition uses_params :: "string list" where
  "uses_params = [[], ''ftp'', ''hdl'', ''prospero'', ''http'', ''imap'', ''https'', ''shttp'',
     ''rtsp'', ''rtspu'', ''sip'', ''sips'', ''mms'', ''sftp'', ''tel'']"

definition lower_char :: "char \<Rightarrow> char" where
  "lower_char c = (if c \<in> set ascii_uppercase then char_of (of_char c + (32::nat)) else c)"

definition split_scheme :: "string \<Rightarrow> string \<times> string" where
  "split_scheme url =
     (let i = length (takeWhile (\<lambda>c. c \<noteq> CHR '':'') url)
      in if CHR '':'' \<in> set url \<and> 0 < i \<and> hd url \<in> set (ascii_lowercase @ ascii_uppercase)
            \<and> list_all (\<lambda>c. c \<in> set scheme_chars) (take i url)
         then (map lower_char (take i url), drop (Suc i) url)
         else ([], url))"

definition split_netloc :: "string \<Rightarrow> string \<times> string" where
  "split_netloc url =
     (if take 2 url = ''//''
      then (takeWhile (\<lambda>c. c \<notin> set ''/?#'') (drop 2 url),
            dropWhile (\<lambda>c. c \<notin> set ''/?#'') (drop 2 url))
      else ([], url))"

definition split_params :: "string \<Rightarrow> string" where
  "split_params url =
     rev (dropWhile (\<lambda>c. c \<noteq> CHR ''/'') (rev url))
     @ takeWhile (\<lambda>c. c \<noteq> CHR '';'') (rev (takeWhile (\<lambda>c. c \<noteq> CHR ''/'') (rev url)))"

definition urlparse_lib :: "string \<Rightarrow> py_error + parse_result" where
  "urlparse_lib url =
     (let (scheme, url) = split_scheme url;
          (netloc, url) = split_netloc url
      in if (CHR ''['' \<in> set netloc \<and> CHR '']'' \<notin> set netloc)
            \<or> (CHR '']'' \<in> set netloc \<and> CHR ''['' \<notin> set netloc)
         then Inl ValueError
         else let url = takeWhile (\<lambda>c. c \<noteq> CHR ''#'') url;
                  url = takeWhile (\<lambda>c. c \<noteq> CHR ''?'') url;
                  url = (if scheme \<in> set uses_params \<and> CHR '';'' \<in> set url
                         then split_params url else url)
              in Inr \<lparr>netloc = netloc, path = url\<rparr>)"

section \<open>The store handle\<close>

text \<open>
  The handle reads one table, \<open>urls\<close>, with an \<open>id\<close> and an \<open>href\<close> column; the module
  never writes to it. A connection is the rows it can read.
  \<^verbatim>\<open>
  def db_connect():
      c = None
      try:
          params = db()
          c = connect(**params)
      except (Exception, DatabaseError) as e:
          print(e)
      return c

  conn = db_connect()
  \<close>
  \<open>connect\<close> is the outcome of reading the parameters and connecting: an error or a
  connection. The module-level \<open>conn\<close> is \<open>None\<close> when it was an error.
\<close>

record url_row =
  row_id :: int
  href :: string

type_synonym connection = "url_row list"

definition db_connect :: "(py_error + connection) \<Rightarrow> connection option" where
  "db_connect connect = (case connect of Inl e \<Rightarrow> None | Inr c \<Rightarrow> Some c)"

text \<open>
  \<^verbatim>\<open>
  c.execute('SELECT id FROM urls WHERE href = %s', (key,))
  existing_id = c.fetchone()
  \<close>
  The first row whose \<open>href\<close> is the key, or \<open>None\<close>. Failures of the database
  driver during the query are not modelled.
\<close>

definition fetch_existing_id :: "connection \<Rightarrow> string \<Rightarrow> int option" where
  "fetch_existing_id rows key = map_option row_id (find (\<lambda>r. href r = key) rows)"

section \<open>Dictionaries\<close>

text \<open>
  A Python \<open>dict\<close> keeps its keys in insertion order and a key once: storing under a
  key that is present replaces the value where the key stands, a new key goes to the end.
  \<open>del d[k]\<close> raises \<open>KeyError\<close> when the key is absent.
\<close>

type_synonym ('k, 'v) dict = "('k \<times> 'v) list"

definition dict_setitem :: "('k, 'v) dict \<Rightarrow> 'k \<Rightarrow> 'v \<Rightarrow> ('k, 'v) dict" where
  "dict_setitem d k v =
     (if k \<in> fst ` set d then map (\<lambda>(k', v'). if k' = k then (k', v) else (k', v')) d
      else d @ [(k, v)])"

definition dict_delitem :: "('k, 'v) dict \<Rightarrow> 'k \<Rightarrow> py_error + ('k, 'v) dict" where
  "dict_delitem d k =
     (if k \<in> fst ` set d then Inr (filter (\<lambda>(k', v'). k' \<noteq> k) d) else Inl KeyError)"

section \<open>The deduplicator\<close>

text \<open>
  An article is an object with a \<open>url\<close>; \<open>rest\<close> stands for all its other attributes.
  \<open>urlparse\<close> is \<open>urllib.parse.urlparse\<close>, library code and a parameter of the
  model: from a URL to the parse result, of which the module reads \<open>netloc\<close> and
  \<open>path\<close>, or to the \<open>ValueError\<close> the library raises on a URL it rejects.
\<close>

record 'p article =
  url :: string
  rest :: 'p

text \<open>
  \<^verbatim>\<open>current_articles = {article.url: article for article in articles}\<close>
\<close>

definition current_articles :: "'p article list \<Rightarrow> (string, 'p article) dict" where
  "current_articles articles = foldl (\<lambda>d article. dict_setitem d (url article) article) [] articles"

text \<open>
  \<^verbatim>\<open>
  for url, article in list(current_articles.items()):
      with conn.cursor() as c:
          u = urlparse(url)
          c.execute('SELECT id FROM urls WHERE href = %s', (f'{u.netloc}{u.path}',))
          existing_id = c.fetchone()

          if existing_id != None:
              del current_articles[url]
  \<close>
  The loop runs over a copy \<open>items\<close> of the dictionary's items and deletes from the
  dictionary \<open>d\<close>; the loop variable \<open>url\<close> is \<open>url'\<close> here, beside the field
  \<open>url\<close> of an article. \<open>conn.cursor()\<close> comes first in the body: on the handle \<open>None\<close> it
  raises \<open>AttributeError\<close>.
\<close>

fun memoize_loop ::
  "(string \<Rightarrow> py_error + parse_result) \<Rightarrow> connection option \<Rightarrow>
   (string \<times> 'p article) list \<Rightarrow> (string, 'p article) dict \<Rightarrow> py_error + (string, 'p article) dict" where
  "memoize_loop urlparse conn [] d = Inr d"
| "memoize_loop urlparse conn ((url', article) # items) d =
     (case conn of
        None \<Rightarrow> Inl AttributeError
      | Some c \<Rightarrow>
          (case urlparse url' of
             Inl e \<Rightarrow> Inl e
           | Inr u \<Rightarrow>
               (let existing_id = fetch_existing_id c (netloc u @ path u)
                in if existing_id \<noteq> None
                   then (case dict_delitem d url' of
                           Inl e \<Rightarrow> Inl e
                         | Inr d' \<Rightarrow> memoize_loop urlparse conn items d')
                   else memoize_loop urlparse conn items d)))"

text \<open>
  \<^verbatim>\<open>
  def memoize_articles(source, articles):
      if len(articles) == 0:
          return []
      current_articles = {article.url: article for article in articles}
      for url, article in list(current_articles.items()):
          ...
      return list(current_articles.values())
  \<close>
  The module-level \<open>conn\<close> is passed in.
\<close>

definition memoize_articles ::
  "(string \<Rightarrow> py_error + parse_result) \<Rightarrow> connection option \<Rightarrow> 's \<Rightarrow> 'p article list \<Rightarrow>
   py_error + 'p article list" where
  "memoize_articles urlparse conn source articles =
     (if length articles = 0 then Inr []
      else (case memoize_loop urlparse conn (current_articles articles) (current_articles articles) of
              Inl e \<Rightarrow> Inl e
            | Inr d \<Rightarrow> Inr (map snd d)))"

section \<open>Properties of the string operations\<close>

lemma str_replace_char:
  "str_replace [a] [b] s = map (\<lambda>c. if c = a then b else c) s"
  by (induction s) auto









section \<open>The cache file name\<close>

lemma domain_to_filename_empty: "domain_to_filename [] = Inl IndexError"
  by (simp add: domain_to_filename_def)

lemma domain_to_filename_nonempty:
  "domain \<noteq> [] \<Longrightarrow> \<exists>stem. domain_to_filename domain = Inr (stem @ ''.txt'') \<and> CHR ''/'' \<notin> set stem"
  by (auto simp: domain_to_filename_def str_replace_char Let_def dest: in_set_butlastD)

text \<open>
  C10. The claim: \<open>domain_to_filename\<close> fails on the empty string and, on every other
  domain, returns a name in which every \<open>/\<close> is a \<open>-\<close>, with no trailing \<open>-\<close> before
  the suffix \<open>.txt\<close>. The first two parts hold (the two lemmas above). The function
  removes one trailing \<open>-\<close> only, so a domain that ends in two separators keeps a \<open>-\<close>
  in front of the suffix, against the docstring's "no trailing".
\<close>

theorem domain_to_filename_double_slash:
  "domain_to_filename ''example.com//'' = Inr ''example.com-.txt''"
  by (simp add: domain_to_filename_def)

section \<open>The fingerprints\<close>

text \<open>
  C1. The claim: for every URL string the URL-based generator succeeds and returns a
  candidate whose \<open>link_hash\<close> is the digest of the URL's bytes, a delimiter and the
  time. The generator hands the text to \<open>hashlib.md5\<close> without encoding it, as the
  content-based generator does, so it raises \<open>TypeError\<close> on every text; on bytes the
  test \<open>'#!' in url_to_crawl\<close> raises it.
\<close>

theorem URLHelper_raises_TypeError:
  "URLHelper_get_parsing_candidate md5 str_time now url_to_crawl = Inl TypeError"
  by (cases url_to_crawl)
     (simp_all add: URLHelper_get_parsing_candidate_def hashlib_md5_hexdigest_def)

text \<open>The content-based generator returns on text and on bytes.\<close>

lemma RawHelper_returns:
  "RawHelper_get_parsing_candidate md5 str_time now u raw_html
     = Inr (ParsingCandidate u
         (format_link_hash str_time
            (md5 (case raw_html of PyStr s \<Rightarrow> utf8_encode s | PyBytes b \<Rightarrow> b)) now))"
  by (cases raw_html)
     (simp_all add: RawHelper_get_parsing_candidate_def hashlib_md5_hexdigest_def)

text \<open>
  C8. For the same content, the content-based fingerprints taken at two different
  clock readings are two different strings. Python renders different floats as
  different texts; that is the hypothesis on \<open>str_time\<close>.
\<close>

theorem RawHelper_fingerprints_differ:
  assumes "inj str_time" and "t1 \<noteq> t2"
  shows "\<exists>c1 c2. RawHelper_get_parsing_candidate md5 str_time t1 u raw_html = Inr c1
           \<and> RawHelper_get_parsing_candidate md5 str_time t2 u raw_html = Inr c2
           \<and> link_hash c1 \<noteq> link_hash c2"
proof -
  from assms have "str_time t1 \<noteq> str_time t2"
    by (auto dest: injD)
  then show ?thesis
    by (cases raw_html)
       (simp_all add: RawHelper_get_parsing_candidate_def hashlib_md5_hexdigest_def
          format_link_hash_def)
qed

theorem RawHelper_fingerprints_differ_witness:
  "inj (\<lambda>s::string. s) \<and> ''1700000000.25'' \<noteq> ''1700000001.5''
   \<and> (\<exists>c1 c2. RawHelper_get_parsing_candidate (\<lambda>b. ''d41d8cd98f00b204e9800998ecf8427e'') (\<lambda>s. s)
                  ''1700000000.25'' ''http://example.com/'' (PyBytes []) = Inr c1
            \<and> RawHelper_get_parsing_candidate (\<lambda>b. ''d41d8cd98f00b204e9800998ecf8427e'') (\<lambda>s. s)
                  ''1700000001.5'' ''http://example.com/'' (PyBytes []) = Inr c2
            \<and> link_hash c1 \<noteq> link_hash c2)"
proof -
  have i: "inj (\<lambda>s::string. s)" by (simp add: inj_def)
  have d: "''1700000000.25'' \<noteq> ''1700000001.5''" by simp
  show ?thesis
    using i d RawHelper_fingerprints_differ [OF i d,
        of "\<lambda>b. ''d41d8cd98f00b204e9800998ecf8427e''" "''http://example.com/''" "PyBytes []"]
    by blast
qed

section \<open>The timeout guard's outcomes\<close>

lemma timelimit_alive: "timelimit True function = Inl (PyExc TimeoutError_class [])"
  by (simp add: timelimit_def)

lemma timelimit_returns: "timelimit False (Inr v) = Inr (Some v)"
  by (simp add: timelimit_def Dispatch_run_def Dispatch_init_def)

lemma timelimit_constructor_rejects:
  "\<not> accepts_one_arg (class_of e) \<Longrightarrow> timelimit False (Inl e) = Inl (PyExc TypeError_class [])"
  by (simp add: timelimit_def Dispatch_run_def Dispatch_init_def instantiate_def)





section \<open>The collapse of a batch by URL\<close>

lemma keys_dict_setitem:
  "map fst (dict_setitem d k v) = (if k \<in> fst ` set d then map fst d else map fst d @ [k])"
  by (auto simp: dict_setitem_def split: prod.splits)

lemma distinct_dict_setitem:
  "distinct (map fst d) \<Longrightarrow> distinct (map fst (dict_setitem d k v))"
  by (auto simp: keys_dict_setitem)

lemma map_of_replace_value:
  "map_of (map (\<lambda>(k', v'). if k' = k then (k', v) else (k', v')) d) x
     = (if x = k \<and> k \<in> fst ` set d then Some v else map_of d x)"
proof (induction d)
  case Nil
  then show ?case by simp
next
  case (Cons p d)
  obtain k' v' where p: "p = (k', v')" by (cases p)
  show ?case
  proof (cases "k' = k")
    case True
    then show ?thesis by (simp add: p Cons.IH)
  next
    case False
    with Cons.IH show ?thesis by (force simp: p)
  qed
qed

lemma map_of_dict_setitem: "map_of (dict_setitem d k v) = (map_of d)(k \<mapsto> v)"
proof (cases "k \<in> fst ` set d")
  case True
  then show ?thesis by (simp add: dict_setitem_def map_of_replace_value fun_eq_iff)
next
  case False
  then have "map_of d k = None" by (simp add: map_of_eq_None_iff)
  with False show ?thesis
    by (auto simp: dict_setitem_def fun_eq_iff map_add_def split: option.splits)
qed

lemma current_articles_Nil: "current_articles [] = []"
  by (simp add: current_articles_def)

lemma current_articles_snoc:
  "current_articles (articles @ [a]) = dict_setitem (current_articles articles) (url a) a"
  by (simp add: current_articles_def)

lemma distinct_current_articles: "distinct (map fst (current_articles articles))"
  by (induction articles rule: rev_induct)
     (simp_all add: current_articles_Nil current_articles_snoc distinct_dict_setitem)

lemma keys_current_articles: "fst ` set (current_articles articles) = url ` set articles"
proof (induction articles rule: rev_induct)
  case Nil
  then show ?case by (simp add: current_articles_Nil)
next
  case (snoc a articles)
  have "set (map fst (dict_setitem (current_articles articles) (url a) a))
        = insert (url a) (fst ` set (current_articles articles))"
    by (auto simp: keys_dict_setitem)
  with snoc show ?case by (simp add: current_articles_snoc)
qed

lemma map_of_current_articles:
  "map_of (current_articles articles) u =
     (if u \<in> url ` set articles then Some (last (filter (\<lambda>a. url a = u) articles)) else None)"
proof (induction articles rule: rev_induct)
  case Nil
  then show ?case by (simp add: current_articles_Nil)
next
  case (snoc a articles)
  then show ?case by (auto simp: current_articles_snoc map_of_dict_setitem)
qed

lemma filter_key_distinct:
  "distinct (map fst d) \<Longrightarrow> map_of d k = Some v \<Longrightarrow> filter (\<lambda>(k', v'). k' = k) d = [(k, v)]"
proof (induction d)
  case Nil
  then show ?case by simp
next
  case (Cons x d)
  obtain k' v' where x: "x = (k', v')" by (cases x)
  show ?case
  proof (cases "k' = k")
    case True
    with Cons.prems x have "v' = v" and "k \<notin> fst ` set d" by auto
    then have "filter (\<lambda>(k', v'). k' = k) d = []"
      by (force simp: filter_empty_conv)
    with True x \<open>v' = v\<close> show ?thesis by simp
  next
    case False
    with Cons x show ?thesis by simp
  qed
qed

lemma current_articles_entry:
  assumes "(k, v) \<in> set (current_articles articles)"
  shows "v \<in> set articles \<and> url v = k"
proof -
  from assms have "map_of (current_articles articles) k = Some v"
    by (simp add: distinct_current_articles)
  then have k: "k \<in> url ` set articles" and v: "v = last (filter (\<lambda>a. url a = k) articles)"
    by (auto simp: map_of_current_articles split: if_splits)
  from k have ne: "filter (\<lambda>a. url a = k) articles \<noteq> []"
    by (auto simp: filter_empty_conv)
  from last_in_set [OF ne] v show ?thesis by auto
qed

lemma current_articles_nonempty: "current_articles (a # articles) \<noteq> []"
proof
  assume "current_articles (a # articles) = []"
  then have "fst ` set (current_articles (a # articles)) = {}" by simp
  then show False by (simp add: keys_current_articles)
qed

text \<open>
  C6. Of a URL that occurs in the batch, once or several times, the collapse keeps one
  entry, and its article is the last one of the batch with that URL: every earlier
  occurrence is gone.
\<close>

theorem collapse_keeps_last:
  assumes "u \<in> url ` set articles"
  shows "filter (\<lambda>(k, v). k = u) (current_articles articles)
           = [(u, last (filter (\<lambda>a. url a = u) articles))]"
  using assms
  by (intro filter_key_distinct distinct_current_articles) (simp add: map_of_current_articles)

theorem collapse_keeps_last_witness:
  "''http://example.com/x'' \<in> url ` set [\<lparr>url = ''http://example.com/x'', rest = (1::nat)\<rparr>,
        \<lparr>url = ''http://example.com/y'', rest = 2\<rparr>, \<lparr>url = ''http://example.com/x'', rest = 3\<rparr>]
   \<and> filter (\<lambda>(k, v). k = ''http://example.com/x'')
        (current_articles [\<lparr>url = ''http://example.com/x'', rest = (1::nat)\<rparr>,
           \<lparr>url = ''http://example.com/y'', rest = 2\<rparr>, \<lparr>url = ''http://example.com/x'', rest = 3\<rparr>])
      = [(''http://example.com/x'', \<lparr>url = ''http://example.com/x'', rest = 3\<rparr>)]"
  using collapse_keeps_last [of "''http://example.com/x''"
      "[\<lparr>url = ''http://example.com/x'', rest = (1::nat)\<rparr>,
        \<lparr>url = ''http://example.com/y'', rest = 2\<rparr>, \<lparr>url = ''http://example.com/x'', rest = 3\<rparr>]"]
  by simp

section \<open>The URL splitter\<close>













text \<open>The splitter and the normalisation on some URLs.\<close>

lemma urlparse_lib_example_a:
  "urlparse_lib ''http://example.com/a?x=1#frag'' = Inr \<lparr>netloc = ''example.com'', path = ''/a''\<rparr>"
  by code_simp

lemma urlparse_lib_example_b:
  "urlparse_lib ''http://example.com/b'' = Inr \<lparr>netloc = ''example.com'', path = ''/b''\<rparr>"
  by code_simp

lemma memoize_articles_example:
  "memoize_articles urlparse_lib (Some [\<lparr>row_id = 1, href = ''example.com/a''\<rparr>]) ()
     [\<lparr>url = ''http://example.com/a?x=1#frag'', rest = (1::nat)\<rparr>,
      \<lparr>url = ''http://example.com/b'', rest = 2\<rparr>,
      \<lparr>url = ''http://example.com/b'', rest = 3\<rparr>]
   = Inr [\<lparr>url = ''http://example.com/b'', rest = 3\<rparr>]"
  by code_simp



section \<open>The deduplicator's loop\<close>

text \<open>
  C3. The claim: with the handle \<open>None\<close> after a failed connection, a call on a
  non-empty batch treats the store as unusable, as empty or with a clear error, and does
  not crash. \<open>db_connect\<close> swallows the failure and leaves the handle \<open>None\<close>;
  \<open>memoize_articles\<close> never tests it, and the first \<open>conn.cursor()\<close> raises
  \<open>AttributeError\<close> on every non-empty batch.
\<close>

theorem memoize_articles_null_handle:
  "memoize_articles urlparse (db_connect (Inl e)) source (a # articles) = Inl AttributeError"
proof -
  obtain k v items where "current_articles (a # articles) = (k, v) # items"
    using current_articles_nonempty [of a articles]
    by (cases "current_articles (a # articles)") auto
  then show ?thesis
    by (simp add: memoize_articles_def db_connect_def)
qed

lemma memoize_articles_empty_batch: "memoize_articles urlparse conn source [] = Inr []"
  by (simp add: memoize_articles_def)

lemma fetch_existing_id_iff:
  "fetch_existing_id c key \<noteq> None \<longleftrightarrow> (\<exists>r\<in>set c. href r = key)"
  by (auto simp: fetch_existing_id_def find_None_iff)

text \<open>
  A loop that returns has deleted from the dictionary the keys among \<open>items\<close> whose
  netloc and path are in the table, and nothing else.
\<close>

lemma memoize_loop_filter:
  "memoize_loop urlparse (Some c) items d = Inr d' \<Longrightarrow>
   d' = filter (\<lambda>(k, v). \<not> (k \<in> fst ` set items
                \<and> (\<exists>u. urlparse k = Inr u \<and> (\<exists>r\<in>set c. href r = netloc u @ path u)))) d"
proof (induction items arbitrary: d)
  case Nil
  then show ?case by simp
next
  case (Cons item items)
  obtain k a where item: "item = (k, a)" by (cases item)
  from Cons.prems item obtain u where u: "urlparse k = Inr u"
    by (cases "urlparse k") auto
  show ?case
  proof (cases "\<exists>r\<in>set c. href r = netloc u @ path u")
    case True
    then have "fetch_existing_id c (netloc u @ path u) \<noteq> None"
      using fetch_existing_id_iff [of c "netloc u @ path u"] by blast
    with Cons.prems item u obtain d1 where d1: "dict_delitem d k = Inr d1"
      and rec: "memoize_loop urlparse (Some c) items d1 = Inr d'"
      by (cases "dict_delitem d k") auto
    from d1 have "d1 = filter (\<lambda>(k', v'). k' \<noteq> k) d"
      by (auto simp: dict_delitem_def split: if_splits)
    with Cons.IH [OF rec] True u item show ?thesis
      by (auto intro!: filter_cong split: prod.splits)
  next
    case False
    then have "fetch_existing_id c (netloc u @ path u) = None"
      using fetch_existing_id_iff [of c "netloc u @ path u"] by blast
    with Cons.prems item u have rec: "memoize_loop urlparse (Some c) items d = Inr d'"
      by simp
    with Cons.IH [OF rec] False u item show ?thesis
      by (auto intro!: filter_cong split: prod.splits)
  qed
qed

lemma memoize_articles_filter:
  assumes "memoize_articles urlparse (Some c) source articles = Inr out"
  shows "out = map snd (filter (\<lambda>(k, v). \<not> (\<exists>u. urlparse k = Inr u
                         \<and> (\<exists>r\<in>set c. href r = netloc u @ path u))) (current_articles articles))"
proof (cases "articles = []")
  case True
  with assms show ?thesis by (simp add: memoize_articles_def current_articles_Nil)
next
  case False
  with assms obtain d' where
    loop: "memoize_loop urlparse (Some c) (current_articles articles) (current_articles articles) = Inr d'"
    and out: "out = map snd d'"
    by (auto simp: memoize_articles_def split: sum.splits)
  have "d' = filter (\<lambda>(k, v). \<not> (\<exists>u. urlparse k = Inr u
                         \<and> (\<exists>r\<in>set c. href r = netloc u @ path u))) (current_articles articles)"
    unfolding memoize_loop_filter [OF loop]
    by (rule filter_cong) force+
  with out show ?thesis by simp
qed

lemma memoize_loop_sublist:
  "memoize_loop urlparse conn items d = Inr d' \<Longrightarrow> \<exists>P. d' = filter P d"
proof (induction items arbitrary: d)
  case Nil
  then have "d' = filter (\<lambda>x. True) d" by simp
  then show ?case by blast
next
  case (Cons item items)
  obtain k a where item: "item = (k, a)" by (cases item)
  from Cons.prems item obtain c where c: "conn = Some c"
    by (cases conn) auto
  from Cons.prems item c obtain u where u: "urlparse k = Inr u"
    by (cases "urlparse k") auto
  show ?case
  proof (cases "fetch_existing_id c (netloc u @ path u) \<noteq> None")
    case True
    with Cons.prems item c u obtain d1 where d1: "dict_delitem d k = Inr d1"
      and rec: "memoize_loop urlparse conn items d1 = Inr d'"
      by (cases "dict_delitem d k") auto
    from d1 have d1': "d1 = filter (\<lambda>(k', v'). k' \<noteq> k) d"
      by (auto simp: dict_delitem_def split: if_splits)
    from Cons.IH [OF rec] obtain P where "d' = filter P d1" by blast
    with d1' have "d' = filter (\<lambda>x. (case x of (k', v') \<Rightarrow> k' \<noteq> k) \<and> P x) d" by simp
    then show ?thesis by blast
  next
    case False
    with Cons.prems item c u have "memoize_loop urlparse conn items d = Inr d'" by auto
    from Cons.IH [OF this] show ?thesis .
  qed
qed

text \<open>
  C9. Whatever the batch and the store, every article the deduplicator returns is an
  article of the batch, as it was given, and no two returned articles have the same URL.
\<close>

theorem memoize_articles_output:
  assumes "memoize_articles urlparse conn source articles = Inr out"
  shows "set out \<subseteq> set articles \<and> distinct (map url out)"
proof (cases "articles = []")
  case True
  with assms show ?thesis by (simp add: memoize_articles_def)
next
  case False
  with assms obtain d' where
    loop: "memoize_loop urlparse conn (current_articles articles) (current_articles articles) = Inr d'"
    and out: "out = map snd d'"
    by (auto simp: memoize_articles_def split: sum.splits)
  from memoize_loop_sublist [OF loop] obtain P where d': "d' = filter P (current_articles articles)"
    by blast
  then have sub: "set d' \<subseteq> set (current_articles articles)" by auto
  have entry: "v \<in> set articles \<and> url v = k" if "(k, v) \<in> set d'" for k v
    using that sub current_articles_entry by blast
  have "map url out = map fst d'"
    unfolding out using entry by (auto simp: map_eq_conv)
  moreover have "distinct (map fst d')"
    unfolding d' by (rule distinct_map_filter) (rule distinct_current_articles)
  moreover have "set out \<subseteq> set articles"
    unfolding out using entry by auto
  ultimately show ?thesis by simp
qed

theorem memoize_articles_output_witness:
  "memoize_articles urlparse_lib (Some [\<lparr>row_id = 1, href = ''example.com/a''\<rparr>]) ()
     [\<lparr>url = ''http://example.com/a?x=1#frag'', rest = (1::nat)\<rparr>,
      \<lparr>url = ''http://example.com/b'', rest = 2\<rparr>,
      \<lparr>url = ''http://example.com/b'', rest = 3\<rparr>]
   = Inr [\<lparr>url = ''http://example.com/b'', rest = 3\<rparr>]
   \<and> set [\<lparr>url = ''http://example.com/b'', rest = (3::nat)\<rparr>]
       \<subseteq> set [\<lparr>url = ''http://example.com/a?x=1#frag'', rest = (1::nat)\<rparr>,
                \<lparr>url = ''http://example.com/b'', rest = 2\<rparr>,
                \<lparr>url = ''http://example.com/b'', rest = 3\<rparr>]
   \<and> distinct (map url [\<lparr>url = ''http://example.com/b'', rest = (3::nat)\<rparr>])"
  using memoize_articles_output [OF memoize_articles_example] memoize_articles_example
  by blast

text \<open>
  With a handle and URLs that the library accepts, the loop returns: a key it deletes is
  a key of the dictionary.
\<close>

lemma keys_filter_other:
  "fst ` set (filter (\<lambda>(k', v'). k' \<noteq> k) d) = fst ` set d - {k}"
  by (induction d) auto

lemma memoize_loop_returns:
  assumes "distinct (map fst items)" and "fst ` set items \<subseteq> fst ` set d"
    and "\<forall>k\<in>fst ` set items. \<exists>u. urlparse k = Inr u"
  shows "\<exists>d'. memoize_loop urlparse (Some c) items d = Inr d'"
  using assms
proof (induction items arbitrary: d)
  case Nil
  then show ?case by simp
next
  case (Cons item items)
  obtain k a where item: "item = (k, a)" by (cases item)
  from Cons.prems(3) item obtain u where u: "urlparse k = Inr u" by auto
  from Cons.prems(1) item have dist: "distinct (map fst items)" and fresh: "k \<notin> fst ` set items"
    by auto
  from Cons.prems(3) have parse: "\<forall>k\<in>fst ` set items. \<exists>u. urlparse k = Inr u" by auto
  show ?case
  proof (cases "fetch_existing_id c (netloc u @ path u) \<noteq> None")
    case True
    from Cons.prems(2) item have "k \<in> fst ` set d" by auto
    then have del: "dict_delitem d k = Inr (filter (\<lambda>(k', v'). k' \<noteq> k) d)"
      by (simp add: dict_delitem_def)
    from Cons.prems(2) fresh have "fst ` set items \<subseteq> fst ` set d - {k}"
      by auto
    then have "fst ` set items \<subseteq> fst ` set (filter (\<lambda>(k', v'). k' \<noteq> k) d)"
      by (simp only: keys_filter_other)
    from Cons.IH [OF dist this parse] obtain d' where
      "memoize_loop urlparse (Some c) items (filter (\<lambda>(k', v'). k' \<noteq> k) d) = Inr d'" by blast
    with True u item del show ?thesis by simp
  next
    case False
    from Cons.prems(2) have "fst ` set items \<subseteq> fst ` set d" by auto
    from Cons.IH [OF dist this parse] obtain d' where
      "memoize_loop urlparse (Some c) items d = Inr d'" by blast
    with False u item show ?thesis by simp
  qed
qed

lemma memoize_articles_returns:
  assumes "\<forall>b\<in>set articles. \<exists>u. urlparse (url b) = Inr u"
  shows "\<exists>out. memoize_articles urlparse (Some c) source articles = Inr out"
proof (cases "articles = []")
  case True
  then show ?thesis by (simp add: memoize_articles_def)
next
  case False
  from assms have "\<forall>k\<in>fst ` set (current_articles articles). \<exists>u. urlparse k = Inr u"
    by (simp add: keys_current_articles)
  from memoize_loop_returns [OF distinct_current_articles subset_refl this]
  obtain d' where "memoize_loop urlparse (Some c) (current_articles articles)
      (current_articles articles) = Inr d'"
    by blast
  with False show ?thesis by (simp add: memoize_articles_def)
qed

text \<open>
  C7. Take any table and any batch whose URLs the library accepts, and a candidate of
  the batch with netloc \<open>n\<close> and path \<open>p\<close>; its query string and fragment play no
  part. The deduplicator returns. If the table holds \<open>n\<close> followed by \<open>p\<close>, no
  returned article has the candidate's URL. If the table does not hold it, the last
  candidate of the batch with that URL is returned, which is the candidate itself when no
  other candidate has its URL.
\<close>

theorem memoize_articles_store:
  assumes "\<forall>b\<in>set articles. \<exists>u. urlparse (url b) = Inr u"
    and "a \<in> set (articles :: 'p article list)" and "urlparse (url a) = Inr u"
  shows "\<exists>out. memoize_articles urlparse (Some c) source articles = Inr out
       \<and> ((\<exists>r\<in>set c. href r = netloc u @ path u) \<longrightarrow> (\<forall>b\<in>set out. url b \<noteq> url a))
       \<and> ((\<forall>r\<in>set c. href r \<noteq> netloc u @ path u) \<longrightarrow>
            last (filter (\<lambda>b. url b = url a) articles) \<in> set out)
       \<and> ((\<forall>r\<in>set c. href r \<noteq> netloc u @ path u) \<and> (\<forall>b\<in>set articles. url b = url a \<longrightarrow> b = a) \<longrightarrow>
            a \<in> set out)"
proof -
  from memoize_articles_returns [OF assms(1), of c source] obtain out where
    ret: "memoize_articles urlparse (Some c) source articles = Inr out"
    by blast
  let ?new = "\<lambda>(k, v::'p article). \<not> (\<exists>u. urlparse k = Inr u \<and> (\<exists>r\<in>set c. href r = netloc u @ path u))"
  have out: "out = map snd (filter ?new (current_articles articles))"
    using ret by (rule memoize_articles_filter)
  let ?l = "last (filter (\<lambda>b. url b = url a) articles)"
  have entry: "(url a, ?l) \<in> set (current_articles articles)"
    using assms(2) by (intro map_of_SomeD) (simp add: map_of_current_articles)
  have ne: "filter (\<lambda>b. url b = url a) articles \<noteq> []"
    using assms(2) by (auto simp: filter_empty_conv)
  have excl: "\<forall>b\<in>set out. url b \<noteq> url a" if "\<exists>r\<in>set c. href r = netloc u @ path u"
  proof
    fix b assume "b \<in> set out"
    then obtain k where kb: "(k, b) \<in> set (current_articles articles)" and "?new (k, b)"
      unfolding out by auto
    with current_articles_entry [OF kb] that assms(3) show "url b \<noteq> url a" by auto
  qed
  have keep: "?l \<in> set out" if "\<forall>r\<in>set c. href r \<noteq> netloc u @ path u"
  proof -
    from that assms(3) have "?new (url a, ?l)" by auto
    with entry show ?thesis unfolding out by force
  qed
  have single: "?l = a" if "\<forall>b\<in>set articles. url b = url a \<longrightarrow> b = a"
  proof -
    from last_in_set [OF ne] have "?l \<in> set articles \<and> url ?l = url a" by auto
    with that show ?thesis by blast
  qed
  from ret excl keep single show ?thesis by auto
qed


theorem memoize_articles_store_witness:
  "urlparse_lib ''http://example.com/a?x=1#frag'' = Inr \<lparr>netloc = ''example.com'', path = ''/a''\<rparr>
   \<and> ''example.com'' @ ''/a'' \<in> href ` set [\<lparr>row_id = 1, href = ''example.com/a''\<rparr>]
   \<and> urlparse_lib ''http://example.com/b'' = Inr \<lparr>netloc = ''example.com'', path = ''/b''\<rparr>
   \<and> ''example.com'' @ ''/b'' \<notin> href ` set [\<lparr>row_id = 1, href = ''example.com/a''\<rparr>]
   \<and> (\<exists>out. memoize_articles urlparse_lib (Some [\<lparr>row_id = 1, href = ''example.com/a''\<rparr>]) ()
               [\<lparr>url = ''http://example.com/a?x=1#frag'', rest = (1::nat)\<rparr>,
                \<lparr>url = ''http://example.com/b'', rest = 2\<rparr>,
                \<lparr>url = ''http://example.com/b'', rest = 3\<rparr>] = Inr out
          \<and> ''http://example.com/a?x=1#frag'' \<notin> url ` set out
          \<and> \<lparr>url = ''http://example.com/b'', rest = 3\<rparr> \<in> set out)"
proof -
  let ?a = "\<lparr>url = ''http://example.com/a?x=1#frag'', rest = (1::nat)\<rparr>"
  let ?b = "\<lparr>url = ''http://example.com/b'', rest = (2::nat)\<rparr>"
  let ?b' = "\<lparr>url = ''http://example.com/b'', rest = (3::nat)\<rparr>"
  let ?store = "[\<lparr>row_id = 1, href = ''example.com/a''\<rparr>]"
  have ua: "urlparse_lib (url ?a) = Inr \<lparr>netloc = ''example.com'', path = ''/a''\<rparr>"
    and ub: "urlparse_lib (url ?b) = Inr \<lparr>netloc = ''example.com'', path = ''/b''\<rparr>"
    by (simp_all add: urlparse_lib_example_a urlparse_lib_example_b)
  have parse: "\<forall>x\<in>set [?a, ?b, ?b']. \<exists>u. urlparse_lib (url x) = Inr u"
    by (simp add: urlparse_lib_example_a urlparse_lib_example_b)
  have a: "?a \<in> set [?a, ?b, ?b']" and b: "?b \<in> set [?a, ?b, ?b']"
    by simp_all
  from memoize_articles_store [OF parse a ua, of ?store "()"] obtain out where
    ret: "memoize_articles urlparse_lib (Some ?store) () [?a, ?b, ?b'] = Inr out"
    and excl: "(\<exists>r\<in>set ?store. href r = netloc \<lparr>netloc = ''example.com'', path = ''/a''\<rparr>
                   @ path \<lparr>netloc = ''example.com'', path = ''/a''\<rparr>)
               \<longrightarrow> (\<forall>x\<in>set out. url x \<noteq> url ?a)"
    by (elim exE conjE)
  from memoize_articles_store [OF parse b ub, of ?store "()"] ret have
    keep: "(\<forall>r\<in>set ?store. href r \<noteq> netloc \<lparr>netloc = ''example.com'', path = ''/b''\<rparr>
                   @ path \<lparr>netloc = ''example.com'', path = ''/b''\<rparr>)
               \<longrightarrow> last (filter (\<lambda>x. url x = url ?b) [?a, ?b, ?b']) \<in> set out"
    by (elim exE conjE) simp
  from excl have "''http://example.com/a?x=1#frag'' \<notin> url ` set out" by auto
  moreover from keep have "?b' \<in> set out" by simp
  ultimately show ?thesis
    using ret by (simp add: urlparse_lib_example_a urlparse_lib_example_b)
qed

section \<open>The lookup and the hash-bang form of a URL\<close>






end
